theory Spec2Isabelle
  imports Complex_Main "HOL-Library.List_Lexorder" "HOL-Library.Product_Lexorder"
    "HOL-Library.Sublist" "HOL-Library.Multiset" "HOL-Library.Log_Nat"
begin

section \<open>Python values used by rofi-zotero.py\<close>

text \<open>
  A Python \<open>str\<close> is a sequence of Unicode code points, so it is modelled as a list of
  naturals: \<open>len\<close> is \<open>length\<close>, and the ellipsis U+2026 of \<open>format_path\<close> is one
  element. Comparison of strings is the lexicographic order on code points, which is the
  order of \<open>HOL-Library.List_Lexorder\<close>; tuples compare lexicographically
  (\<open>HOL-Library.Product_Lexorder\<close>).
\<close>

type_synonym pystr = "nat list"

definition lit :: "string \<Rightarrow> pystr" where
  "lit s = map of_char s"

definition ELLIPSIS :: nat where
  "ELLIPSIS = 8230"

definition SLASH :: nat where
  "SLASH = 47"

definition DASH :: nat where
  "DASH = 45"

definition NEWLINE :: nat where
  "NEWLINE = 10"

text \<open>The exceptions the program can raise from the modelled code.\<close>

datatype error = IndexError | KeyError | ValueError

text \<open>\<open>s.startswith(p)\<close>\<close>

definition startswith :: "pystr \<Rightarrow> pystr \<Rightarrow> bool" where
  "startswith s p = (take (length p) s = p)"

text \<open>\<open>s.replace(old, new, 1)\<close>: the first occurrence of \<open>old\<close>, if any, is replaced.\<close>

fun replace1 :: "pystr \<Rightarrow> pystr \<Rightarrow> pystr \<Rightarrow> pystr" where
  "replace1 [] old new = (if old = [] then new else [])"
| "replace1 (c # cs) old new =
     (if startswith (c # cs) old then new @ drop (length old) (c # cs)
      else c # replace1 cs old new)"

text \<open>\<open>s.split(sep)\<close> for a one-character separator; the result is never empty.\<close>

fun py_split :: "nat \<Rightarrow> pystr \<Rightarrow> pystr list" where
  "py_split sep [] = [[]]"
| "py_split sep (c # cs) =
     (if c = sep then [] # py_split sep cs
      else (case py_split sep cs of [] \<Rightarrow> [[c]] | w # ws \<Rightarrow> (c # w) # ws))"

text \<open>\<open>sep.join(xs)\<close>\<close>

fun py_join :: "pystr \<Rightarrow> pystr list \<Rightarrow> pystr" where
  "py_join sep [] = []"
| "py_join sep [x] = x"
| "py_join sep (x # y # ys) = x @ sep @ py_join sep (y # ys)"

text \<open>\<open>xs[i]\<close>: a negative index counts from the end, an index out of range raises.\<close>

definition py_index :: "'a list \<Rightarrow> int \<Rightarrow> error + 'a" where
  "py_index xs i =
     (if 0 \<le> i \<and> i < int (length xs) then Inr (xs ! nat i)
      else if i < 0 \<and> - int (length xs) \<le> i then Inr (xs ! nat (int (length xs) + i))
      else Inl IndexError)"

text \<open>The slices \<open>s[:k]\<close> and \<open>s[i:]\<close>: a negative bound counts from the end and is
  clamped at the start of the string; a bound beyond the end is clamped at the end.\<close>

definition slice_to :: "'a list \<Rightarrow> int \<Rightarrow> 'a list" where
  "slice_to s k = (if k < 0 then take (nat (int (length s) + k)) s else take (nat k) s)"

definition slice_from :: "'a list \<Rightarrow> int \<Rightarrow> 'a list" where
  "slice_from s i = (if i < 0 then drop (nat (int (length s) + i)) s else drop (nat i) s)"

text \<open>\<open>round(x)\<close> with one argument rounds half to even and returns an \<open>int\<close>.\<close>

definition py_round :: "rat \<Rightarrow> int" where
  "py_round x =
     (let f = \<lfloor>x\<rfloor>; r = x - of_int f
      in if r < 1 / 2 then f else if 1 / 2 < r then f + 1 else if even f then f else f + 1)"

text \<open>
  A Python \<open>float\<close> is an IEEE 754 binary64 number, here the rational it denotes.
  \<open>fl x\<close> is the float nearest to \<open>x\<close>, ties to the even significand of 53 bits: the
  value of a decimal literal, of an \<open>int\<close> converted to \<open>float\<close>, and of an arithmetic
  result. The exponent is not bounded: overflow and subnormal numbers are not modelled.
  \<open>ilog2 a\<close> is the integer part of the binary logarithm of a positive \<open>a\<close>.
\<close>

definition pw2 :: "int \<Rightarrow> rat" where
  "pw2 e = (if 0 \<le> e then 2 ^ nat e else 1 / 2 ^ nat (- e))"

definition ilog2 :: "rat \<Rightarrow> int" where
  "ilog2 a =
     (case quotient_of a of
        (n, d) \<Rightarrow> (let k = bitlen n - bitlen d in if pw2 k \<le> a then k else k - 1))"

definition fl :: "rat \<Rightarrow> rat" where
  "fl x =
     (if x = 0 then 0
      else (let e = ilog2 \<bar>x\<bar> - 52; m = py_round (\<bar>x\<bar> / pw2 e)
            in sgn x * of_int m * pw2 e))"

section \<open>pathlib.PurePosixPath\<close>

text \<open>
  The program builds \<open>pathlib.Path\<close> objects and uses the constructor, the operator
  \<open>/\<close> with a string on the right, \<open>str\<close>, \<open>name\<close> and the comparison behind
  \<open>list.sort\<close>. A path is its root (\<open>''\<close>, \<open>'/'\<close> or \<open>'//'\<close>) and its components;
  parsing drops empty components and \<open>'.'\<close>. Joining with a string that starts with a
  slash discards the left operand. Paths compare by the list of their parts, the root
  first when there is one (\<open>_cparts\<close> of Python 3.7 to 3.11).
\<close>

datatype path = Path (root: pystr) (parts: "pystr list")

definition parse_root :: "pystr \<Rightarrow> pystr" where
  "parse_root s =
     (if startswith s (lit ''//'') \<and> \<not> startswith s (lit ''///'') then lit ''//''
      else if startswith s (lit ''/'') then lit ''/''
      else [])"

definition parse_path :: "pystr \<Rightarrow> path" where
  "parse_path s = Path (parse_root s) (filter (\<lambda>c. c \<noteq> [] \<and> c \<noteq> lit ''.'') (py_split SLASH s))"

definition joinpath :: "path \<Rightarrow> pystr \<Rightarrow> path" where
  "joinpath p s =
     (if startswith s (lit ''/'') then parse_path s
      else Path (root p) (parts p @ parts (parse_path s)))"

definition str_path :: "path \<Rightarrow> pystr" where
  "str_path p =
     (if root p = [] \<and> parts p = [] then lit ''.''
      else root p @ py_join (lit ''/'') (parts p))"

definition name :: "path \<Rightarrow> pystr" where
  "name p = (if parts p = [] then [] else last (parts p))"

definition cparts :: "path \<Rightarrow> pystr list" where
  "cparts p = (if root p = [] then parts p else root p # parts p)"

text \<open>
  \<open>str\<close> of a list of paths, as compared with the raw path expression in \<open>main\<close>:
  \<open>[PosixPath('/a'), PosixPath('/b')]\<close>. The built-in \<open>repr\<close> of a string (quoting and
  escaping) is a parameter.
\<close>

definition repr_path :: "(pystr \<Rightarrow> pystr) \<Rightarrow> path \<Rightarrow> pystr" where
  "repr_path repr p = lit ''PosixPath('' @ repr (str_path p) @ lit '')''"

definition str_path_list :: "(pystr \<Rightarrow> pystr) \<Rightarrow> path list \<Rightarrow> pystr" where
  "str_path_list repr ps = lit ''['' @ py_join (lit '', '') (map (repr_path repr) ps) @ lit '']''"

text \<open>\<open>repr\<close> of a string of printable ASCII characters without quotes and backslashes.\<close>

definition plain_repr :: "pystr \<Rightarrow> pystr" where
  "plain_repr s = [39] @ s @ [39]"

section \<open>The label formatter\<close>

text \<open>\<open>format_authors\<close>: the branches on \<open>len(author_list)\<close>, in the source's order;
  \<open>author_list[0]\<close> raises on the empty list.\<close>

fun format_authors :: "pystr list \<Rightarrow> error + pystr" where
  "format_authors [a] = Inr a"
| "format_authors [a, b] = Inr (a @ lit '' and '' @ b)"
| "format_authors (a # _) = Inr (a @ lit '' et al.'')"
| "format_authors [] = Inl IndexError"

text \<open>
  \<open>format_path\<close>. \<open>ending_fraction\<close> is the decimal written for the float; the product
  \<open>maxlen * ending_fraction\<close> of line 184 is the float product of the converted \<open>int\<close>
  and the float.
\<close>

definition format_path :: "path \<Rightarrow> int \<Rightarrow> bool \<Rightarrow> rat \<Rightarrow> pystr" where
  "format_path p maxlen fullpath ending_fraction =
     (let path_str = (if \<not> fullpath then name p else str_path p)
      in if int (length path_str) \<le> maxlen then path_str
         else
           (let char_end = py_round (fl (fl (of_int maxlen) * fl ending_fraction)) - 1;
                char_start = maxlen - char_end - 1
            in slice_to path_str char_start @ [ELLIPSIS] @ slice_from path_str (- char_end)))"

text \<open>\<open>format_item\<close>: \<open>author\<close> and \<open>year\<close> are optional and tested for truthiness:
  \<open>None\<close> and the empty string are both false.\<close>

definition truthy :: "pystr option \<Rightarrow> bool" where
  "truthy x = (case x of None \<Rightarrow> False | Some s \<Rightarrow> s \<noteq> [])"

definition format_item :: "pystr \<Rightarrow> pystr option \<Rightarrow> pystr option \<Rightarrow> pystr" where
  "format_item title author year =
     (if truthy author \<and> truthy year then
        the author @ lit '' ('' @ the year @ lit '') - '' @ title
      else if truthy author then the author @ lit '' - '' @ title
      else if truthy year then lit ''Unknown ('' @ the year @ lit '') - '' @ title
      else lit ''Unknown - '' @ title)"

section \<open>The catalog builder: the loops of \<open>main\<close>\<close>

text \<open>
  Author reconciliation (lines 363 to 372). \<open>all_authors[0][0]\<close> raises on an empty
  row sequence. The loop stores the running list under the previous identifier when the
  identifier changes; nothing is stored after the loop.
\<close>

fun authors_loop ::
  "int \<Rightarrow> pystr list \<Rightarrow> (int \<rightharpoonup> pystr) \<Rightarrow> (int \<times> pystr) list \<Rightarrow>
   error + (int \<times> pystr list \<times> (int \<rightharpoonup> pystr))" where
  "authors_loop i author_list authors [] = Inr (i, author_list, authors)"
| "authors_loop i author_list authors ((author_id, author) # rows) =
     (if author_id \<noteq> i then
        (case format_authors author_list of
           Inl e \<Rightarrow> Inl e
         | Inr s \<Rightarrow> authors_loop author_id [author] (authors(i \<mapsto> s)) rows)
      else authors_loop i (author_list @ [author]) authors rows)"

definition build_authors :: "(int \<times> pystr) list \<Rightarrow> error + (int \<rightharpoonup> pystr)" where
  "build_authors all_authors =
     (case all_authors of
        [] \<Rightarrow> Inl IndexError
      | (i0, _) # _ \<Rightarrow>
          (case authors_loop i0 [] Map.empty all_authors of
             Inl e \<Rightarrow> Inl e
           | Inr (_, _, authors) \<Rightarrow> Inr authors))"

text \<open>
  Titles and storage keys (lines 374 to 379): the first row of an identifier wins.
  \<open>titles.items()\<close> is read later in insertion order, so \<open>titles\<close> is an association
  list that grows at its end.
\<close>

fun titles_loop ::
  "(int \<times> pystr) list \<Rightarrow> (int \<rightharpoonup> pystr) \<Rightarrow> (int \<times> pystr \<times> pystr) list \<Rightarrow>
   (int \<times> pystr) list \<times> (int \<rightharpoonup> pystr)" where
  "titles_loop titles keys [] = (titles, keys)"
| "titles_loop titles keys ((title_id, title, key) # rows) =
     (if title_id \<notin> set (map fst titles)
      then titles_loop (titles @ [(title_id, title)]) (keys(title_id \<mapsto> key)) rows
      else titles_loop titles keys rows)"

text \<open>Years (lines 381 to 384): \<open>date.split("-")[0]\<close> of the first row of an identifier.\<close>

definition year_of :: "pystr \<Rightarrow> error + pystr" where
  "year_of date = py_index (py_split DASH date) 0"

fun years_loop :: "(int \<rightharpoonup> pystr) \<Rightarrow> (int \<times> pystr) list \<Rightarrow> error + (int \<rightharpoonup> pystr)" where
  "years_loop years [] = Inr years"
| "years_loop years ((date_id, date) # rows) =
     (if years date_id = None then
        (case year_of date of
           Inl e \<Rightarrow> Inl e
         | Inr y \<Rightarrow> years_loop (years(date_id \<mapsto> y)) rows)
      else years_loop years rows)"

text \<open>
  Path resolution (lines 394 to 401) of one raw expression: \<open>key\<close> is \<open>keys.get(path_id)\<close>,
  read only in the \<open>storage:\<close> branch, where a missing key raises.
\<close>

definition resolve_path :: "path \<Rightarrow> path \<Rightarrow> pystr option \<Rightarrow> pystr \<Rightarrow> error + path" where
  "resolve_path zotero_base_dir zotero_path key p =
     (if startswith p (lit ''attachments:'') then
        Inr (joinpath zotero_base_dir (replace1 p (lit ''attachments:'') []))
      else if startswith p (lit ''storage:'') then
        (case key of
           None \<Rightarrow> Inl KeyError
         | Some k \<Rightarrow>
             Inr (joinpath (joinpath (joinpath zotero_path (lit ''storage'')) k)
                    (replace1 p (lit ''storage:'') [])))
      else Inr (parse_path p))"

text \<open>
  The path loop (lines 386 to 405). A null path is skipped. The second test compares
  \<open>str\<close> of the identifier's whole list of paths with the raw expression.
\<close>

fun paths_loop ::
  "(pystr \<Rightarrow> pystr) \<Rightarrow> path \<Rightarrow> path \<Rightarrow> (int \<rightharpoonup> pystr) \<Rightarrow> (int \<rightharpoonup> path list) \<Rightarrow>
   (int \<times> pystr option) list \<Rightarrow> error + (int \<rightharpoonup> path list)" where
  "paths_loop repr base zp keys paths [] = Inr paths"
| "paths_loop repr base zp keys paths ((path_id, None) # rows) =
     paths_loop repr base zp keys paths rows"
| "paths_loop repr base zp keys paths ((path_id, Some p) # rows) =
     (if (case paths path_id of None \<Rightarrow> False | Some ps \<Rightarrow> str_path_list repr ps = p)
      then paths_loop repr base zp keys paths rows
      else
        (case resolve_path base zp (keys path_id) p of
           Inl e \<Rightarrow> Inl e
         | Inr rp \<Rightarrow>
             paths_loop repr base zp keys
               (paths(path_id \<mapsto> (case paths path_id of None \<Rightarrow> [] | Some ps \<Rightarrow> ps) @ [rp]))
               rows))"

text \<open>Catalog assembly (lines 407 to 414): the list of pairs, sorted as tuples.\<close>

definition item_list_unsorted ::
  "(int \<times> pystr) list \<Rightarrow> (int \<rightharpoonup> pystr) \<Rightarrow> (int \<rightharpoonup> pystr) \<Rightarrow> (pystr \<times> int) list" where
  "item_list_unsorted titles authors years =
     map (\<lambda>(item_id, title). (format_item title (authors item_id) (years item_id), item_id)) titles"

definition item_list_with_ids ::
  "(int \<times> pystr) list \<Rightarrow> (int \<rightharpoonup> pystr) \<Rightarrow> (int \<rightharpoonup> pystr) \<Rightarrow> (pystr \<times> int) list" where
  "item_list_with_ids titles authors years = sort (item_list_unsorted titles authors years)"

section \<open>The interaction of \<open>main\<close>\<close>

text \<open>
  The arguments of \<open>main\<close> (\<open>rofi_args\<close> after \<open>shlex.split\<close>, the two directories as
  paths), and what the run reads from outside: the four row sequences of the snapshot,
  the answers of the two pickers, which files exist, and the built-in \<open>repr\<close>.
  A picker answers with the stripped standard output of rofi: empty (\<open>Cancelled\<close>), the
  decimal of an integer (\<open>Index\<close>), or anything else, on which \<open>int\<close> raises.
\<close>

datatype response = Cancelled | Index int | Garbage

record config =
  zotero_path :: path
  zotero_base_dir :: path
  list_flag :: bool
  viewer :: pystr
  rofi_args :: "pystr list"
  prompt_paper :: pystr
  prompt_attachment :: pystr

record world =
  all_authors :: "(int \<times> pystr) list"
  all_titles :: "(int \<times> pystr \<times> pystr) list"
  all_dates :: "(int \<times> pystr) list"
  all_paths :: "(int \<times> pystr option) list"
  pick_item :: response
  pick_attachment :: response
  file_exists :: "path \<Rightarrow> bool"
  py_repr :: "pystr \<Rightarrow> pystr"

text \<open>
  What the run does to the outside, in order: \<open>print\<close> to standard output or to standard
  error, \<open>subprocess.run\<close> of a rofi command with its input, and the call of
  \<open>open_file\<close> with the viewer and the file.
\<close>

datatype event =
    Print pystr
  | Stderr pystr
  | Subprocess "pystr list" pystr
  | OpenFile pystr path

text \<open>\<open>show_error\<close>\<close>

definition show_error :: "pystr \<Rightarrow> pystr list \<Rightarrow> event list" where
  "show_error error_msg args =
     [Stderr error_msg, Subprocess ([lit ''rofi'', lit ''-e'', error_msg] @ args) []]"

definition rofi_command :: "pystr list \<Rightarrow> pystr \<Rightarrow> pystr list" where
  "rofi_command args prompt =
     [lit ''rofi'', lit ''-dmenu'', lit ''-format'', lit ''i''] @ args @ [lit ''-p'', prompt]"

text \<open>
  Lines 415 to 456: from the sorted catalog to the file to open. The result holds the
  events so far and \<open>file_to_open\<close>, or no file when \<open>main\<close> returns early.
  \<open>files_to_open.sort()\<close> sorts the selected item's paths before they are shown.
\<close>

definition select_file ::
  "config \<Rightarrow> world \<Rightarrow> (int \<rightharpoonup> path list) \<Rightarrow> (pystr \<times> int) list \<Rightarrow>
   error + (event list \<times> path option)" where
  "select_file cfg w paths items =
     (let items_input = py_join [NEWLINE] (map fst items) in
      if list_flag cfg then Inr ([Print items_input], None)
      else
        (let ev1 = Subprocess (rofi_command (rofi_args cfg) (prompt_paper cfg)) items_input in
         case pick_item w of
           Cancelled \<Rightarrow> Inr ([ev1], None)
         | Garbage \<Rightarrow> Inl ValueError
         | Index i \<Rightarrow>
             (case py_index items i of
                Inl e \<Rightarrow> Inl e
              | Inr (_, item_id) \<Rightarrow>
                  (case paths item_id of
                     None \<Rightarrow> Inl KeyError
                   | Some fs \<Rightarrow>
                       (let files_to_open = sort_key cparts fs in
                        if length files_to_open = 1
                        then
                          (case py_index files_to_open 0 of
                             Inl e \<Rightarrow> Inl e
                           | Inr f \<Rightarrow> Inr ([ev1], Some f))
                        else
                          (let files = map (\<lambda>p. format_path p 80 False (1 / 2)) files_to_open;
                               ev2 = Subprocess
                                 (rofi_command (rofi_args cfg) (prompt_attachment cfg))
                                 (py_join [NEWLINE] files)
                           in case pick_attachment w of
                                Cancelled \<Rightarrow> Inr ([ev1, ev2], None)
                              | Garbage \<Rightarrow> Inl ValueError
                              | Index j \<Rightarrow>
                                  (case py_index files_to_open j of
                                     Inl e \<Rightarrow> Inl e
                                   | Inr f \<Rightarrow> Inr ([ev1, ev2], Some f))))))))"

text \<open>Lines 458 to 461.\<close>

definition open_or_report :: "config \<Rightarrow> world \<Rightarrow> path \<Rightarrow> event list" where
  "open_or_report cfg w file_to_open =
     (if file_exists w file_to_open then [OpenFile (viewer cfg) file_to_open]
      else show_error (lit ''Could not find file: '' @ str_path file_to_open) (rofi_args cfg))"

text \<open>\<open>main\<close> from the four row sequences on (lines 363 to 461): an uncaught exception
  is \<open>Inl\<close>, a return is the list of events.\<close>

definition main :: "config \<Rightarrow> world \<Rightarrow> error + event list" where
  "main cfg w =
     (case build_authors (all_authors w) of
        Inl e \<Rightarrow> Inl e
      | Inr authors \<Rightarrow>
          (case titles_loop [] Map.empty (all_titles w) of
             (titles, keys) \<Rightarrow>
               (case years_loop Map.empty (all_dates w) of
                  Inl e \<Rightarrow> Inl e
                | Inr years \<Rightarrow>
                    (case paths_loop (py_repr w) (zotero_base_dir cfg) (zotero_path cfg) keys
                            Map.empty (all_paths w) of
                       Inl e \<Rightarrow> Inl e
                     | Inr paths \<Rightarrow>
                         (case select_file cfg w paths (item_list_with_ids titles authors years) of
                            Inl e \<Rightarrow> Inl e
                          | Inr (evs, None) \<Rightarrow> Inr evs
                          | Inr (evs, Some f) \<Rightarrow> Inr (evs @ open_or_report cfg w f))))))"

text \<open>The exit status of the process: an uncaught exception ends Python with status 1,
  a return of \<open>main\<close> with status 0.\<close>

definition exit_status :: "error + event list \<Rightarrow> nat" where
  "exit_status r = (case r of Inl _ \<Rightarrow> 1 | Inr _ \<Rightarrow> 0)"

section \<open>Notions used in the statements\<close>

text \<open>
  A clean relative path expression: not empty, no leading slash, no empty component and
  no component \<open>.\<close>, so that the path parser keeps every component as it is.
\<close>

definition clean :: "pystr \<Rightarrow> bool" where
  "clean s = list_all (\<lambda>c. c \<noteq> [] \<and> c \<noteq> lit ''.'') (py_split SLASH s)"




fun is_open :: "event \<Rightarrow> bool" where
  "is_open (OpenFile v f) = True"
| "is_open (Print s) = False"
| "is_open (Stderr s) = False"
| "is_open (Subprocess c s) = False"

text \<open>
  A configuration with the defaults of the program (directories \<open>/zotero\<close> and \<open>/base\<close>),
  and a snapshot with one titled item, with its two pickers answering with index 0.
\<close>

definition demo_config :: config where
  "demo_config =
     \<lparr>zotero_path = Path (lit ''/'') [lit ''zotero''],
      zotero_base_dir = Path (lit ''/'') [lit ''base''],
      list_flag = False,
      viewer = lit ''xdg-open %u'',
      rofi_args = [lit ''-i''],
      prompt_paper = lit ''paper'',
      prompt_attachment = lit ''attachment''\<rparr>"

definition demo_world :: world where
  "demo_world =
     \<lparr>all_authors = [(1, lit ''Doe'')],
      all_titles = [(1, lit ''T'', lit ''K'')],
      all_dates = [],
      all_paths = [(1, Some (lit ''/x.pdf''))],
      pick_item = Index 0,
      pick_attachment = Index 0,
      file_exists = (\<lambda>f. True),
      py_repr = plain_repr\<rparr>"

section \<open>Facts about the string operations\<close>

lemma length_lit: "length (lit s) = length s"
  by (simp add: lit_def)

lemma startswith_split: "startswith s p \<Longrightarrow> s = p @ drop (length p) s"
  unfolding startswith_def by (metis append_take_drop_id)

lemma replace1_prefix: "startswith s old \<Longrightarrow> replace1 s old new = new @ drop (length old) s"
  by (cases s) (auto simp: startswith_def)

lemma storage_not_attachments:
  "startswith p (lit ''storage:'') \<Longrightarrow> \<not> startswith p (lit ''attachments:'')"
  by (cases p) (auto simp: startswith_def lit_def)

lemma py_split_nonempty: "py_split sep s \<noteq> []"
  by (induction s) (auto split: list.splits)

lemma py_split_hd: "py_split sep s = takeWhile (\<lambda>c. c \<noteq> sep) s # tl (py_split sep s)"
  by (induction s) (auto split: list.splits simp: py_split_nonempty)

text \<open>The definitions unfolded to evaluate a run on concrete inputs.\<close>

lemmas run_defs = main_def build_authors_def select_file_def open_or_report_def show_error_def
  rofi_command_def item_list_with_ids_def item_list_unsorted_def format_item_def truthy_def
  resolve_path_def startswith_def parse_path_def parse_root_def str_path_list_def
  py_index_def format_path_def name_def cparts_def str_path_def exit_status_def
  plain_repr_def repr_path_def demo_config_def demo_world_def lit_def SLASH_def NEWLINE_def

section \<open>Path resolution\<close>

lemma py_join_split: "py_join [sep] (py_split sep s) = s"
proof (induction s)
  case Nil
  then show ?case by simp
next
  case (Cons c cs)
  obtain w ws where w: "py_split sep cs = w # ws"
    using py_split_nonempty [of sep cs] by (cases "py_split sep cs") auto
  show ?case
    using Cons.IH by (cases ws) (auto simp: w)
qed

lemma py_join_append:
  "xs \<noteq> [] \<Longrightarrow> ys \<noteq> [] \<Longrightarrow> py_join sep (xs @ ys) = py_join sep xs @ sep @ py_join sep ys"
proof (induction sep xs rule: py_join.induct)
  case (1 sep)
  then show ?case by simp
next
  case (2 sep x)
  then show ?case by (cases ys) auto
next
  case (3 sep x y ys)
  then show ?case by simp
qed

lemma clean_not_slash: "clean s \<Longrightarrow> \<not> startswith s (lit ''/'')"
  by (cases s) (auto simp: clean_def startswith_def lit_def SLASH_def)

lemma clean_parts: "clean s \<Longrightarrow> parts (parse_path s) = py_split SLASH s"
  by (simp add: parse_path_def clean_def list_all_iff filter_id_conv)

lemma str_joinpath:
  assumes "clean s" and "parts p \<noteq> []"
  shows "str_path (joinpath p s) = str_path p @ lit ''/'' @ s"
    and "parts (joinpath p s) \<noteq> []"
proof -
  have j: "joinpath p s = Path (root p) (parts p @ py_split SLASH s)"
    using clean_not_slash [OF assms(1)] clean_parts [OF assms(1)]
    by (simp add: joinpath_def)
  have l: "lit ''/'' = [SLASH]"
    by (simp add: lit_def SLASH_def)
  show "str_path (joinpath p s) = str_path p @ lit ''/'' @ s"
    using assms(2) py_split_nonempty [of SLASH s]
    by (simp add: j str_path_def py_join_append l py_join_split)
  show "parts (joinpath p s) \<noteq> []"
    using assms(2) by (simp add: j)
qed

lemma clean_storage: "clean (lit ''storage'')"
  by (simp add: clean_def lit_def SLASH_def)

lemma str_parse_absolute:
  assumes "clean s"
  shows "str_path (parse_path (lit ''/'' @ s)) = lit ''/'' @ s"
proof -
  have l: "lit ''/'' = [SLASH]"
    by (simp add: lit_def SLASH_def)
  have n: "\<not> startswith s (lit ''/'')"
    by (rule clean_not_slash [OF assms])
  have r: "parse_root (lit ''/'' @ s) = lit ''/''"
    using n by (cases s) (auto simp: parse_root_def startswith_def lit_def)
  have p: "parts (parse_path (lit ''/'' @ s)) = py_split SLASH s"
    using assms by (simp add: parse_path_def l clean_def list_all_iff filter_id_conv)
  have "parse_path (lit ''/'' @ s) = Path (lit ''/'') (py_split SLASH s)"
    using r p by (simp add: parse_path_def)
  then show ?thesis
    by (simp add: str_path_def l py_join_split)
qed

lemma len_attachments: "length (lit ''attachments:'') = 12"
  by (simp add: lit_def)

lemma len_storage: "length (lit ''storage:'') = 8"
  by (simp add: lit_def)

lemma resolve_attachments:
  "startswith p (lit ''attachments:'') \<Longrightarrow>
   resolve_path base zp key p = Inr (joinpath base (drop 12 p))"
  by (simp add: resolve_path_def replace1_prefix len_attachments)

lemma resolve_storage:
  "startswith p (lit ''storage:'') \<Longrightarrow>
   resolve_path base zp (Some k) p =
     Inr (joinpath (joinpath (joinpath zp (lit ''storage'')) k) (drop 8 p))"
  by (simp add: resolve_path_def replace1_prefix len_storage storage_not_attachments)

lemma resolve_other:
  "\<not> startswith p (lit ''attachments:'') \<Longrightarrow> \<not> startswith p (lit ''storage:'') \<Longrightarrow>
   resolve_path base zp key p = Inr (parse_path p)"
  by (simp add: resolve_path_def)

lemma startswith_append: "startswith (p @ r) p"
  by (simp add: startswith_def)

lemma resolve_attachments_str:
  assumes "clean rest" and "parts base \<noteq> []"
  shows "\<exists>r. resolve_path base zp key (lit ''attachments:'' @ rest) = Inr r
           \<and> str_path r = str_path base @ lit ''/'' @ rest"
  using resolve_attachments [where p = "lit ''attachments:'' @ rest", OF startswith_append]
    str_joinpath(1) [OF assms] len_attachments
  by simp

lemma resolve_storage_str:
  assumes "clean rest" and "clean k" and "parts zp \<noteq> []"
  shows "\<exists>r. resolve_path base zp (Some k) (lit ''storage:'' @ rest) = Inr r
           \<and> str_path r = str_path zp @ lit ''/storage/'' @ k @ lit ''/'' @ rest"
proof -
  let ?a = "joinpath zp (lit ''storage'')"
  let ?b = "joinpath ?a k"
  have a: "str_path ?a = str_path zp @ lit ''/'' @ lit ''storage''" "parts ?a \<noteq> []"
    using str_joinpath [OF clean_storage assms(3)] by auto
  have b: "str_path ?b = str_path ?a @ lit ''/'' @ k" "parts ?b \<noteq> []"
    using str_joinpath [OF assms(2) a(2)] by auto
  have c: "str_path (joinpath ?b rest) = str_path ?b @ lit ''/'' @ rest"
    using str_joinpath(1) [OF assms(1) b(2)] .
  have e: "lit ''/'' @ lit ''storage'' @ lit ''/'' = lit ''/storage/''"
    by (simp add: lit_def)
  have "str_path (joinpath ?b rest) = str_path zp @ lit ''/storage/'' @ k @ lit ''/'' @ rest"
    using a(1) b(1) c e by simp
  then show ?thesis
    using resolve_storage [where p = "lit ''storage:'' @ rest", OF startswith_append]
      len_storage
    by simp
qed


lemma resolve_absolute_str:
  assumes "clean rest"
  shows "\<exists>r. resolve_path base zp key (lit ''/'' @ rest) = Inr r
           \<and> str_path r = lit ''/'' @ rest"
proof -
  have "\<not> startswith (lit ''/'' @ rest) (lit ''attachments:'')"
    "\<not> startswith (lit ''/'' @ rest) (lit ''storage:'')"
    by (simp_all add: startswith_def lit_def)
  then show ?thesis
    using resolve_other [of "lit ''/'' @ rest" base zp key] str_parse_absolute [OF assms]
    by simp
qed

text \<open>
  C2. The resolution of a raw path expression is a function of the expression, the
  attachment base directory, the data directory and the storage key, and nothing else.
  An expression with the prefix \<open>attachments:\<close> resolves to the base directory joined
  with the remainder; one with the prefix \<open>storage:\<close> to the data directory joined with
  \<open>storage\<close>, the storage key and the remainder; any other expression to the path it
  denotes itself. Read as strings, for a clean remainder and directories that have a
  component: \<open><base>/<rest>\<close>, \<open><data>/storage/<key>/<rest>\<close>, and an absolute expression
  itself.
\<close>

theorem resolve_path_by_prefix:
  "(startswith p (lit ''attachments:'') \<longrightarrow>
      resolve_path base zp key p = Inr (joinpath base (drop 12 p)))
   \<and> (startswith p (lit ''storage:'') \<longrightarrow>
      resolve_path base zp (Some k) p =
        Inr (joinpath (joinpath (joinpath zp (lit ''storage'')) k) (drop 8 p)))
   \<and> (\<not> startswith p (lit ''attachments:'') \<and> \<not> startswith p (lit ''storage:'') \<longrightarrow>
      resolve_path base zp key p = Inr (parse_path p))
   \<and> (clean rest \<and> parts base \<noteq> [] \<longrightarrow>
      (\<exists>r. resolve_path base zp key (lit ''attachments:'' @ rest) = Inr r
         \<and> str_path r = str_path base @ lit ''/'' @ rest))
   \<and> (clean rest \<and> clean k \<and> parts zp \<noteq> [] \<longrightarrow>
      (\<exists>r. resolve_path base zp (Some k) (lit ''storage:'' @ rest) = Inr r
         \<and> str_path r = str_path zp @ lit ''/storage/'' @ k @ lit ''/'' @ rest))
   \<and> (clean rest \<longrightarrow>
      (\<exists>r. resolve_path base zp key (lit ''/'' @ rest) = Inr r
         \<and> str_path r = lit ''/'' @ rest))"
  using resolve_attachments [of p base zp key] resolve_storage [of p base zp k]
    resolve_other [of p base zp key] resolve_attachments_str [of rest base zp key]
    resolve_storage_str [of rest k zp base] resolve_absolute_str [of rest base zp key]
  by blast

theorem resolve_path_by_prefix_witness:
  "startswith (lit ''attachments:foo/bar.pdf'') (lit ''attachments:'')
   \<and> clean (lit ''foo/bar.pdf'') \<and> clean (lit ''bar.pdf'') \<and> clean (lit ''ABCD1234'')
   \<and> clean (lit ''already/absolute.pdf'')
   \<and> resolve_path (Path (lit ''/'') [lit ''base'']) (Path (lit ''/'') [lit ''zotero'']) None
        (lit ''attachments:foo/bar.pdf'')
      = Inr (joinpath (Path (lit ''/'') [lit ''base'']) (lit ''foo/bar.pdf''))
   \<and> (\<exists>r. resolve_path (Path (lit ''/'') [lit ''base'']) (Path (lit ''/'') [lit ''zotero''])
             None (lit ''attachments:foo/bar.pdf'') = Inr r
          \<and> str_path r = lit ''/base/foo/bar.pdf'')
   \<and> (\<exists>r. resolve_path (Path (lit ''/'') [lit ''base'']) (Path (lit ''/'') [lit ''zotero''])
             (Some (lit ''ABCD1234'')) (lit ''storage:bar.pdf'') = Inr r
          \<and> str_path r = lit ''/zotero/storage/ABCD1234/bar.pdf'')
   \<and> (\<exists>r. resolve_path (Path (lit ''/'') [lit ''base'']) (Path (lit ''/'') [lit ''zotero''])
             None (lit ''/already/absolute.pdf'') = Inr r
          \<and> str_path r = lit ''/already/absolute.pdf'')"
proof -
  let ?B = "Path (lit ''/'') [lit ''base'']"
  let ?Z = "Path (lit ''/'') [lit ''zotero'']"
  have s: "startswith (lit ''attachments:foo/bar.pdf'') (lit ''attachments:'')"
    by (simp add: startswith_def lit_def)
  have c: "clean (lit ''foo/bar.pdf'')" "clean (lit ''bar.pdf'')" "clean (lit ''ABCD1234'')"
    "clean (lit ''already/absolute.pdf'')"
    by (simp_all add: clean_def lit_def SLASH_def)
  have d: "drop 12 (lit ''attachments:foo/bar.pdf'') = lit ''foo/bar.pdf''"
    by (simp add: lit_def)
  have e: "lit ''attachments:'' @ lit ''foo/bar.pdf'' = lit ''attachments:foo/bar.pdf''"
    "lit ''storage:'' @ lit ''bar.pdf'' = lit ''storage:bar.pdf''"
    "lit ''/'' @ lit ''already/absolute.pdf'' = lit ''/already/absolute.pdf''"
    "str_path ?B @ lit ''/'' @ lit ''foo/bar.pdf'' = lit ''/base/foo/bar.pdf''"
    "str_path ?Z @ lit ''/storage/'' @ lit ''ABCD1234'' @ lit ''/'' @ lit ''bar.pdf''
      = lit ''/zotero/storage/ABCD1234/bar.pdf''"
    by (simp_all add: lit_def str_path_def)
  have p: "parts ?B \<noteq> []" "parts ?Z \<noteq> []"
    by simp_all
  have 1: "resolve_path ?B ?Z None (lit ''attachments:foo/bar.pdf'')
      = Inr (joinpath ?B (lit ''foo/bar.pdf''))"
    using resolve_path_by_prefix [of "lit ''attachments:foo/bar.pdf''" ?B ?Z None] s d
    by simp
  have 2: "\<exists>r. resolve_path ?B ?Z None (lit ''attachments:foo/bar.pdf'') = Inr r
      \<and> str_path r = lit ''/base/foo/bar.pdf''"
    using resolve_path_by_prefix [of _ ?B ?Z None _ "lit ''foo/bar.pdf''"] c(1) p(1)
    unfolding e by blast
  have 3: "\<exists>r. resolve_path ?B ?Z (Some (lit ''ABCD1234'')) (lit ''storage:bar.pdf'') = Inr r
      \<and> str_path r = lit ''/zotero/storage/ABCD1234/bar.pdf''"
    using resolve_path_by_prefix [of _ ?B ?Z _ "lit ''ABCD1234''" "lit ''bar.pdf''"] c(2,3) p(2)
    unfolding e by blast
  have 4: "\<exists>r. resolve_path ?B ?Z None (lit ''/already/absolute.pdf'') = Inr r
      \<and> str_path r = lit ''/already/absolute.pdf''"
    using resolve_path_by_prefix [of _ ?B ?Z None _ "lit ''already/absolute.pdf''"] c(4)
    unfolding e by blast
  show ?thesis
    using s c 1 2 3 4 by blast
qed

section \<open>Years and item labels\<close>

lemma year_of_eq: "year_of date = Inr (takeWhile (\<lambda>c. c \<noteq> DASH) date)"
proof -
  obtain ws where "py_split DASH date = takeWhile (\<lambda>c. c \<noteq> DASH) date # ws"
    using py_split_hd by blast
  then show ?thesis by (simp add: year_of_def py_index_def)
qed

text \<open>The year loop never raises, and keeps the first row of every identifier.\<close>

lemma years_loop_eq:
  "years_loop years rows =
     Inr (\<lambda>i. case years i of
                Some y \<Rightarrow> Some y
              | None \<Rightarrow> map_option (takeWhile (\<lambda>c. c \<noteq> DASH)) (map_of rows i))"
proof (induction rows arbitrary: years)
  case Nil
  then show ?case by (auto split: option.splits)
next
  case (Cons r rows)
  obtain j d where r: "r = (j, d)" by (cases r)
  show ?case
    unfolding r
    by (auto simp: year_of_eq Cons.IH fun_eq_iff split: option.splits)
qed

lemma year_empty: "date = [] \<or> startswith date (lit ''-'') \<Longrightarrow> year_of date = Inr []"
  by (cases date) (auto simp: year_of_eq startswith_def lit_def DASH_def)

lemma format_item_empty_author: "format_item title (Some []) year = format_item title None year"
  by (simp add: format_item_def truthy_def)

lemma format_item_empty_year: "format_item title author (Some []) = format_item title author None"
  by (simp add: format_item_def truthy_def)

lemma format_item_no_year:
  "format_item title author None =
     (if truthy author then the author @ lit '' - '' @ title else lit ''Unknown - '' @ title)"
  by (simp add: format_item_def truthy_def)

text \<open>
  C10. \<open>format_item\<close> selects its template by truthiness: an empty author string and an
  empty year string give the same label as an absent one. When the kept date row of an
  identifier (the first row with that identifier) holds a date that is empty or begins
  with \<open>-\<close>, the year stored for the identifier is the empty string, and the label is
  the one of the template without a year.
\<close>

theorem format_item_truthiness:
  assumes "map_of dates i = Some date"
    and "date = [] \<or> startswith date (lit ''-'')"
  shows "format_item title (Some []) year = format_item title None year
    \<and> format_item title author (Some []) = format_item title author None
    \<and> year_of date = Inr []
    \<and> (\<exists>years. years_loop Map.empty dates = Inr years \<and> years i = Some []
          \<and> format_item title author (years i) =
              (if truthy author then the author @ lit '' - '' @ title
               else lit ''Unknown - '' @ title))"
proof -
  define ys where "ys = (\<lambda>j. map_option (takeWhile (\<lambda>c. c \<noteq> DASH)) (map_of dates j))"
  have y: "takeWhile (\<lambda>c. c \<noteq> DASH) date = []"
    using year_empty [OF assms(2)] by (simp add: year_of_eq)
  have l: "years_loop Map.empty dates = Inr ys"
    by (simp add: years_loop_eq ys_def)
  have e: "ys i = Some []"
    by (simp add: ys_def assms(1) y)
  have "format_item title author (ys i) =
      (if truthy author then the author @ lit '' - '' @ title else lit ''Unknown - '' @ title)"
    unfolding e format_item_empty_year by (rule format_item_no_year)
  with l e have "\<exists>years. years_loop Map.empty dates = Inr years \<and> years i = Some []
      \<and> format_item title author (years i) =
          (if truthy author then the author @ lit '' - '' @ title
           else lit ''Unknown - '' @ title)"
    by blast
  then show ?thesis
    using year_empty [OF assms(2)] format_item_empty_author [of title year]
      format_item_empty_year [of title author]
    by blast
qed

theorem format_item_truthiness_witness:
  "map_of [(7::int, lit ''-2020''), (7, lit ''1999-01'')] 7 = Some (lit ''-2020'')
    \<and> startswith (lit ''-2020'') (lit ''-'')
    \<and> format_item (lit ''T'') (Some []) (Some (lit ''1999'')) = lit ''Unknown (1999) - T''
    \<and> format_item (lit ''T'') (Some (lit ''Doe'')) (Some []) = lit ''Doe - T''
    \<and> year_of (lit ''-2020'') = Inr []
    \<and> (\<exists>years. years_loop Map.empty [(7, lit ''-2020''), (7, lit ''1999-01'')] = Inr years
          \<and> years 7 = Some []
          \<and> format_item (lit ''T'') (Some (lit ''Doe'')) (years 7) = lit ''Doe - T'')"
proof -
  have m: "map_of [(7::int, lit ''-2020''), (7, lit ''1999-01'')] 7 = Some (lit ''-2020'')"
    by simp
  have p: "startswith (lit ''-2020'') (lit ''-'')"
    by (simp add: startswith_def lit_def)
  have t: "truthy (Some (lit ''Doe''))"
    by (simp add: truthy_def lit_def)
  have f1: "format_item (lit ''T'') None (Some (lit ''1999'')) = lit ''Unknown (1999) - T''"
    by (simp add: format_item_def truthy_def lit_def)
  have f2: "format_item (lit ''T'') (Some (lit ''Doe'')) None = lit ''Doe - T''"
    by (simp add: format_item_def truthy_def lit_def)
  have a: "the (Some (lit ''Doe'')) @ lit '' - '' @ lit ''T'' = lit ''Doe - T''"
    by (simp add: lit_def)
  show ?thesis
    using format_item_truthiness [OF m, of "lit ''T''" "Some (lit ''1999'')" "Some (lit ''Doe'')"]
      p m t f1 f2 a
    by auto
qed

section \<open>Author reconciliation\<close>

text \<open>
  The author loop raises only on the empty row sequence. The identifiers it stores are
  those of all runs but the last one; with contiguous runs, the identifier of the final
  run has no entry.
\<close>

lemma authors_loop_dom:
  "authors_loop i al m rows = Inr (i', al', m') \<Longrightarrow>
   i' = last (i # map fst rows)
   \<and> dom m' = dom m \<union> set (butlast (remdups_adj (i # map fst rows)))"
proof (induction rows arbitrary: i al m)
  case Nil
  then show ?case by simp
next
  case (Cons r rows)
  obtain j a where r: "r = (j, a)" by (cases r)
  show ?case
  proof (cases "j = i")
    case True
    with Cons.prems r have "authors_loop i (al @ [a]) m rows = Inr (i', al', m')"
      by simp
    from Cons.IH [OF this] show ?thesis
      using True r by simp
  next
    case False
    with Cons.prems r obtain s where
      "authors_loop j [a] (m(i \<mapsto> s)) rows = Inr (i', al', m')"
      by (auto split: sum.splits)
    from Cons.IH [OF this] show ?thesis
      using False r by (auto simp: remdups_adj_Cons' butlast_append)
  qed
qed

lemma authors_loop_total:
  "al \<noteq> [] \<Longrightarrow> \<exists>res. authors_loop i al m rows = Inr res"
proof (induction rows arbitrary: i al m)
  case Nil
  then show ?case by simp
next
  case (Cons r rows)
  obtain j a where r: "r = (j, a)" by (cases r)
  obtain s where s: "format_authors al = Inr s"
    using Cons.prems by (cases al rule: format_authors.cases) auto
  show ?case
  proof (cases "j = i")
    case True
    then show ?thesis
      using Cons.IH [of "al @ [a]" i m] by (simp add: r)
  next
    case False
    have "\<exists>res. authors_loop j [a] (m(i \<mapsto> s)) rows = Inr res"
      by (rule Cons.IH) simp
    with False show ?thesis
      by (simp add: r s)
  qed
qed

lemma build_authors_total:
  "rows \<noteq> [] \<Longrightarrow> \<exists>authors. build_authors rows = Inr authors"
proof -
  assume "rows \<noteq> []"
  then obtain i a rest where r: "rows = (i, a) # rest"
    by (cases rows) auto
  obtain i' al' m' where "authors_loop i [a] Map.empty rest = Inr (i', al', m')"
    using authors_loop_total [of "[a]" i Map.empty rest] by auto
  then show ?thesis
    by (simp add: build_authors_def r)
qed

lemma build_authors_dom:
  assumes "build_authors rows = Inr authors"
  shows "dom authors = set (butlast (remdups_adj (map fst rows)))"
proof -
  from assms obtain i a rest where r: "rows = (i, a) # rest"
    by (cases rows) (auto simp: build_authors_def)
  from assms obtain i' al' where "authors_loop i [] Map.empty rows = Inr (i', al', authors)"
    by (auto simp: build_authors_def r split: sum.splits)
  from authors_loop_dom [OF this] show ?thesis
    by (simp add: r)
qed

lemma build_authors_final_run:
  assumes "build_authors rows = Inr authors"
    and "distinct (remdups_adj (map fst rows))"
  shows "authors (fst (last rows)) = None"
proof -
  from assms(1) have ne: "rows \<noteq> []"
    by (auto simp: build_authors_def)
  let ?g = "remdups_adj (map fst rows)"
  have g: "?g \<noteq> []" using ne by simp
  have l: "last ?g = fst (last rows)"
    using ne by (simp add: last_map)
  have "last ?g \<notin> set (butlast ?g)"
    using assms(2) g by (metis append_butlast_last_id distinct_append disjoint_iff
        list.set_intros(1) distinct.simps(2) not_distinct_conv_prefix)
  then show ?thesis
    using build_authors_dom [OF assms(1)] l by auto
qed

text \<open>
  C1. The author loop stores a run only when the next identifier differs, and nothing is
  stored after the loop: with the single row \<open>(1, Smith)\<close> the author map is empty, where
  one entry \<open>1 \<mapsto> Smith\<close> is expected.
\<close>

theorem build_authors_drops_final_run:
  "build_authors [(1, lit ''Smith'')] = Inr Map.empty"
  by (simp add: build_authors_def)

text \<open>
  C7. With an empty author row sequence, \<open>all_authors[0][0]\<close> raises \<open>IndexError\<close>, and
  \<open>main\<close> ends with that exception whatever the other inputs are.
\<close>

theorem main_empty_authors_raises:
  "main cfg (w\<lparr>all_authors := []\<rparr>) = Inl IndexError
    \<and> exit_status (main cfg (w\<lparr>all_authors := []\<rparr>)) = 1"
  by (simp add: main_def build_authors_def exit_status_def)

section \<open>Paths\<close>

text \<open>
  C4. Two rows of identifier 1 with the same raw expression \<open>/a.pdf\<close>: the test before
  the resolution compares \<open>str\<close> of the identifier's list, which begins with \<open>[\<close>, with
  the raw expression, so the second row is not skipped and the path is recorded twice.
\<close>

theorem paths_loop_records_duplicate:
  "paths_loop repr base zp keys Map.empty
     [(1, Some (lit ''/a.pdf'')), (1, Some (lit ''/a.pdf''))]
   = Inr [1 \<mapsto> [Path (lit ''/'') [lit ''a.pdf''], Path (lit ''/'') [lit ''a.pdf'']]]"
  by (simp add: resolve_path_def startswith_def parse_path_def parse_root_def
      str_path_list_def lit_def SLASH_def)

section \<open>The path loop, the catalog and the second picker\<close>





lemma paths_loop_keeps:
  "paths_loop repr base zp keys paths0 rows = Inr paths \<Longrightarrow> paths0 i \<noteq> None \<Longrightarrow>
   paths i \<noteq> None"
  by (induction repr base zp keys paths0 rows rule: paths_loop.induct)
    (auto split: if_splits sum.splits)

lemma paths_loop_nonempty:
  "paths_loop repr base zp keys paths0 rows = Inr paths \<Longrightarrow>
   (\<forall>k fs. paths0 k = Some fs \<longrightarrow> fs \<noteq> []) \<Longrightarrow> paths i = Some gs \<Longrightarrow> gs \<noteq> []"
  by (induction repr base zp keys paths0 rows rule: paths_loop.induct)
    (auto split: if_splits sum.splits)

lemma paths_loop_has_row:
  "paths_loop repr base zp keys paths0 rows = Inr paths \<Longrightarrow> (i, Some p) \<in> set rows \<Longrightarrow>
   paths i \<noteq> None"
proof (induction repr base zp keys paths0 rows rule: paths_loop.induct)
  case (1 repr base zp keys paths)
  then show ?case by simp
next
  case (2 repr base zp keys paths0 path_id rows)
  then show ?case by auto
next
  case (3 repr base zp keys paths0 path_id q rows)
  show ?case
  proof (cases "case paths0 path_id of None \<Rightarrow> False | Some ps \<Rightarrow> str_path_list repr ps = q")
    case True
    have l: "paths_loop repr base zp keys paths0 rows = Inr paths"
      using "3.prems"(1) True by simp
    show ?thesis
    proof (cases "(i, Some p) \<in> set rows")
      case True
      from "3.IH"(1) [OF \<open>case paths0 path_id of None \<Rightarrow> False
          | Some ps \<Rightarrow> str_path_list repr ps = q\<close> l True]
      show ?thesis .
    next
      case False
      with "3.prems"(2) have e: "path_id = i" by auto
      have "paths0 i \<noteq> None"
        using True e by (auto split: option.splits)
      with l show ?thesis
        by (rule paths_loop_keeps)
    qed
  next
    case False
    with "3.prems"(1) obtain rp where
      rp: "resolve_path base zp (keys path_id) q = Inr rp"
      and l: "paths_loop repr base zp keys
            (paths0(path_id \<mapsto> (case paths0 path_id of None \<Rightarrow> [] | Some ps \<Rightarrow> ps) @ [rp]))
            rows = Inr paths"
      by (auto split: sum.splits)
    show ?thesis
    proof (cases "(i, Some p) \<in> set rows")
      case True
      from "3.IH"(2) [OF False rp l True] show ?thesis .
    next
      case False
      with "3.prems"(2) have e: "path_id = i" by auto
      show ?thesis
        by (rule paths_loop_keeps [OF l]) (simp add: e)
    qed
  qed
qed

lemma titles_loop_ids:
  "titles_loop titles keys rows = (titles', keys') \<Longrightarrow>
   set (map fst titles') = set (map fst titles) \<union> fst ` set rows
   \<and> (distinct (map fst titles) \<longrightarrow> distinct (map fst titles'))"
  by (induction titles keys rows rule: titles_loop.induct) (auto split: if_splits)

lemma item_list_unsorted_ids: "map snd (item_list_unsorted titles authors years) = map fst titles"
  by (induction titles) (auto simp: item_list_unsorted_def)

lemma item_list_ids:
  "mset (map snd (item_list_with_ids titles authors years)) = mset (map fst titles)"
proof -
  have "mset (map snd (item_list_with_ids titles authors years))
      = image_mset snd (mset (item_list_with_ids titles authors years))"
    by simp
  also have "\<dots> = image_mset snd (mset (item_list_unsorted titles authors years))"
    by (simp add: item_list_with_ids_def)
  also have "\<dots> = mset (map snd (item_list_unsorted titles authors years))"
    by simp
  finally show ?thesis
    by (simp add: item_list_unsorted_ids)
qed

lemma select_file_no_open:
  "select_file cfg w paths items = Inr (evs, fo) \<Longrightarrow> list_all (\<lambda>e. \<not> is_open e) evs"
  by (auto simp: select_file_def Let_def
      split: if_splits response.splits sum.splits option.splits prod.splits)






text \<open>
  C6 (as amended). The identifiers of the catalog are exactly those with at least one
  title row, each once; author, date and path rows play no part in it. The path list of
  an identifier is found, and is not empty, whenever the identifier has a non-null path
  row (and the path loop did not raise).
\<close>

theorem catalog_ids_are_title_ids:
  assumes "titles_loop [] Map.empty title_rows = (titles, keys)"
  shows "set (map snd (item_list_with_ids titles authors years)) = fst ` set title_rows
    \<and> distinct (map snd (item_list_with_ids titles authors years))
    \<and> (\<forall>paths i p.
          paths_loop repr base zp keys Map.empty path_rows = Inr paths
          \<and> (i, Some p) \<in> set path_rows
          \<longrightarrow> (\<exists>fs. paths i = Some fs \<and> fs \<noteq> []))"
proof -
  have t: "set (map fst titles) = fst ` set title_rows" "distinct (map fst titles)"
    using titles_loop_ids [OF assms] by auto
  have m: "mset (map snd (item_list_with_ids titles authors years)) = mset (map fst titles)"
    by (rule item_list_ids)
  have a: "set (map snd (item_list_with_ids titles authors years)) = fst ` set title_rows"
    using mset_eq_setD [OF m] t(1) by simp
  have b: "distinct (map snd (item_list_with_ids titles authors years))"
    using mset_eq_imp_distinct_iff [OF m] t(2) by simp
  have c: "\<forall>paths i p.
      paths_loop repr base zp keys Map.empty path_rows = Inr paths
      \<and> (i, Some p) \<in> set path_rows
      \<longrightarrow> (\<exists>fs. paths i = Some fs \<and> fs \<noteq> [])"
  proof (intro allI impI)
    fix paths i p
    assume h: "paths_loop repr base zp keys Map.empty path_rows = Inr paths
      \<and> (i, Some p) \<in> set path_rows"
    then have "paths i \<noteq> None"
      using paths_loop_has_row by blast
    then obtain fs where fs: "paths i = Some fs" by auto
    have "fs \<noteq> []"
      by (rule paths_loop_nonempty [OF h [THEN conjunct1] _ fs]) simp
    with fs show "\<exists>fs. paths i = Some fs \<and> fs \<noteq> []" by blast
  qed
  show ?thesis
    using a b c by blast
qed

text \<open>
  C6 as stated fails: the author map holds identifier 2, which has no path row at all;
  item 1, whose only path row is null, is in the catalog, no path list is recorded for
  it, and selecting it raises \<open>KeyError\<close>.
\<close>

theorem catalog_item_without_paths:
  "build_authors [(2, lit ''Roe''), (1, lit ''Doe''), (3, lit ''Poe'')]
     = Inr [2 \<mapsto> lit ''Roe'', 1 \<mapsto> lit ''Doe'']
   \<and> item_list_with_ids [(1, lit ''T'')] [2 \<mapsto> lit ''Roe'', 1 \<mapsto> lit ''Doe''] Map.empty
     = [(lit ''Doe - T'', 1)]
   \<and> paths_loop plain_repr (Path (lit ''/'') [lit ''base'']) (Path (lit ''/'') [lit ''zotero''])
       [1 \<mapsto> lit ''K''] Map.empty [(1, None)] = Inr Map.empty
   \<and> main demo_config
       (demo_world\<lparr>all_authors := [(2, lit ''Roe''), (1, lit ''Doe''), (3, lit ''Poe'')],
          all_paths := [(1, None)]\<rparr>) = Inl KeyError"
  by (simp add: run_defs)

text \<open>
  One item with two title rows, a null path row and a \<open>storage:\<close> row.
\<close>

theorem catalog_ids_are_title_ids_witness:
  "titles_loop [] Map.empty [(1, lit ''T'', lit ''K''), (1, lit ''U'', lit ''L'')]
     = ([(1, lit ''T'')], [1 \<mapsto> lit ''K''])
   \<and> set (map snd (item_list_with_ids [(1, lit ''T'')] Map.empty Map.empty)) = {1}
   \<and> distinct (map snd (item_list_with_ids [(1, lit ''T'')] Map.empty Map.empty))
   \<and> paths_loop plain_repr (Path (lit ''/'') [lit ''base'']) (Path (lit ''/'') [lit ''zotero''])
       [1 \<mapsto> lit ''K''] Map.empty [(1, None), (1, Some (lit ''storage:x.pdf''))]
       = Inr [1 \<mapsto> [Path (lit ''/'') [lit ''zotero'', lit ''storage'', lit ''K'', lit ''x.pdf'']]]
   \<and> (1, Some (lit ''storage:x.pdf'')) \<in> set [(1::int, None), (1, Some (lit ''storage:x.pdf''))]
   \<and> (\<exists>fs. [1 \<mapsto> [Path (lit ''/'') [lit ''zotero'', lit ''storage'', lit ''K'', lit ''x.pdf'']]]
               (1::int) = Some fs \<and> fs \<noteq> [])"
proof -
  let ?rows = "[(1::int, None), (1, Some (lit ''storage:x.pdf''))]"
  let ?p = "[1 \<mapsto> [Path (lit ''/'') [lit ''zotero'', lit ''storage'', lit ''K'', lit ''x.pdf'']]]
    :: int \<rightharpoonup> path list"
  have 1: "titles_loop [] Map.empty [(1, lit ''T'', lit ''K''), (1, lit ''U'', lit ''L'')]
      = ([(1, lit ''T'')], [1 \<mapsto> lit ''K''])"
    by simp
  have 2: "paths_loop plain_repr (Path (lit ''/'') [lit ''base''])
      (Path (lit ''/'') [lit ''zotero'']) [1 \<mapsto> lit ''K''] Map.empty ?rows = Inr ?p"
    by (simp add: run_defs joinpath_def)
  have 3: "(1, Some (lit ''storage:x.pdf'')) \<in> set ?rows"
    by simp
  note th = catalog_ids_are_title_ids [OF 1, of Map.empty Map.empty plain_repr
      "Path (lit ''/'') [lit ''base'']" "Path (lit ''/'') [lit ''zotero'']" ?rows]
  have 4: "set (map snd (item_list_with_ids [(1, lit ''T'')] Map.empty Map.empty)) = {1}"
    using th [THEN conjunct1] by simp
  have 5: "distinct (map snd (item_list_with_ids [(1, lit ''T'')] Map.empty Map.empty))"
    by (rule th [THEN conjunct2, THEN conjunct1])
  have 6: "\<exists>fs. ?p 1 = Some fs \<and> fs \<noteq> []"
    using th [THEN conjunct2, THEN conjunct2, rule_format, of ?p 1 "lit ''storage:x.pdf''"] 2 3
    by blast
  show ?thesis
    by (intro conjI 1 2 3 4 5 6)
qed

section \<open>The order of the catalog\<close>

lemma prod_le_fst: "(x :: pystr \<times> int) \<le> y \<Longrightarrow> fst x \<le> fst y"
  by (cases x, cases y) (auto simp: less_eq_prod_def)

lemma prod_le_snd: "(x :: pystr \<times> int) \<le> y \<Longrightarrow> fst x = fst y \<Longrightarrow> snd x \<le> snd y"
  by (cases x, cases y) (auto simp: less_eq_prod_def)

lemma sorted_fst: "sorted (xs :: (pystr \<times> int) list) \<Longrightarrow> sorted (map fst xs)"
  by (induction xs) (auto dest: prod_le_fst)

text \<open>
  C3 (as amended). The catalog is the list of (label, identifier) pairs sorted as tuples:
  it is a rearrangement of the pairs built from the titles, ascending in the order of
  pairs, so the labels ascend lexicographically, and entries with equal labels stand in
  the order of their identifiers.
\<close>

theorem item_list_sorted_by_label_then_id:
  "sorted (item_list_with_ids titles authors years)
   \<and> mset (item_list_with_ids titles authors years)
       = mset (item_list_unsorted titles authors years)
   \<and> sorted (map fst (item_list_with_ids titles authors years))
   \<and> (\<forall>i j. i < j \<and> j < length (item_list_with_ids titles authors years)
         \<and> fst (item_list_with_ids titles authors years ! i)
             = fst (item_list_with_ids titles authors years ! j)
       \<longrightarrow> snd (item_list_with_ids titles authors years ! i)
             \<le> snd (item_list_with_ids titles authors years ! j))"
proof -
  let ?xs = "item_list_with_ids titles authors years"
  have s: "sorted ?xs"
    by (simp add: item_list_with_ids_def)
  have m: "mset ?xs = mset (item_list_unsorted titles authors years)"
    by (simp add: item_list_with_ids_def)
  have t: "\<forall>i j. i < j \<and> j < length ?xs \<and> fst (?xs ! i) = fst (?xs ! j)
      \<longrightarrow> snd (?xs ! i) \<le> snd (?xs ! j)"
  proof (intro allI impI)
    fix i j
    assume a: "i < j \<and> j < length ?xs \<and> fst (?xs ! i) = fst (?xs ! j)"
    then have "?xs ! i \<le> ?xs ! j"
      using s by (simp add: sorted_nth_mono)
    with a show "snd (?xs ! i) \<le> snd (?xs ! j)"
      by (simp add: prod_le_snd)
  qed
  show ?thesis
    using s m t sorted_fst [OF s] by blast
qed

text \<open>
  The labels built from the titles \<open>B item\<close>, \<open>A item\<close>, \<open>A item\<close> come out as
  \<open>A item\<close>, \<open>A item\<close>, \<open>B item\<close>, the equal ones by ascending identifier.
\<close>

theorem item_list_sorted_by_label_then_id_witness:
  "item_list_with_ids [(3, lit ''B item''), (2, lit ''A item''), (1, lit ''A item'')]
     Map.empty Map.empty
   = [(lit ''Unknown - A item'', 1), (lit ''Unknown - A item'', 2), (lit ''Unknown - B item'', 3)]
   \<and> sorted (map fst (item_list_with_ids
        [(3, lit ''B item''), (2, lit ''A item''), (1, lit ''A item'')] Map.empty Map.empty))
   \<and> (0::nat) < 1
   \<and> 1 < length (item_list_with_ids
        [(3, lit ''B item''), (2, lit ''A item''), (1, lit ''A item'')] Map.empty Map.empty)
   \<and> fst (item_list_with_ids
        [(3, lit ''B item''), (2, lit ''A item''), (1, lit ''A item'')] Map.empty Map.empty ! 0)
     = fst (item_list_with_ids
        [(3, lit ''B item''), (2, lit ''A item''), (1, lit ''A item'')] Map.empty Map.empty ! 1)
   \<and> snd (item_list_with_ids
        [(3, lit ''B item''), (2, lit ''A item''), (1, lit ''A item'')] Map.empty Map.empty ! 0)
     \<le> snd (item_list_with_ids
        [(3, lit ''B item''), (2, lit ''A item''), (1, lit ''A item'')] Map.empty Map.empty ! 1)"
proof -
  let ?t = "[(3::int, lit ''B item''), (2, lit ''A item''), (1, lit ''A item'')]"
  have v: "item_list_with_ids ?t Map.empty Map.empty
      = [(lit ''Unknown - A item'', 1), (lit ''Unknown - A item'', 2),
         (lit ''Unknown - B item'', 3)]"
    by (simp add: run_defs lit_def)
  have h: "(0::nat) < 1 \<and> 1 < length (item_list_with_ids ?t Map.empty Map.empty)
      \<and> fst (item_list_with_ids ?t Map.empty Map.empty ! 0)
          = fst (item_list_with_ids ?t Map.empty Map.empty ! 1)"
    unfolding v by simp
  note th = item_list_sorted_by_label_then_id [of ?t Map.empty Map.empty]
  have a: "sorted (map fst (item_list_with_ids ?t Map.empty Map.empty))"
    using th by (elim conjE)
  have b: "snd (item_list_with_ids ?t Map.empty Map.empty ! 0)
          \<le> snd (item_list_with_ids ?t Map.empty Map.empty ! 1)"
    by (rule th [THEN conjunct2, THEN conjunct2, THEN conjunct2, rule_format, of 0 1]) (rule h)
  show ?thesis
    by (intro conjI v a b h [THEN conjunct1] h [THEN conjunct2, THEN conjunct1]
        h [THEN conjunct2, THEN conjunct2])
qed

text \<open>
  C3 as stated fails: the sort is not stable with respect to the order before sorting.
  Two titled items with the same label, identifier 2 before identifier 1, are swapped,
  while a stable sort by label would keep them as they were.
\<close>

theorem item_list_ties_by_identifier:
  "item_list_unsorted [(2, lit ''T''), (1, lit ''T'')] Map.empty Map.empty
     = [(lit ''Unknown - T'', 2), (lit ''Unknown - T'', 1)]
   \<and> item_list_with_ids [(2, lit ''T''), (1, lit ''T'')] Map.empty Map.empty
     = [(lit ''Unknown - T'', 1), (lit ''Unknown - T'', 2)]
   \<and> item_list_with_ids [(2, lit ''T''), (1, lit ''T'')] Map.empty Map.empty
     \<noteq> sort_key fst (item_list_unsorted [(2, lit ''T''), (1, lit ''T'')] Map.empty Map.empty)"
  by (simp add: run_defs lit_def)

section \<open>Path shortening\<close>

text \<open>
  When the number of ending characters is at least 1 and less than \<open>maxlen\<close>, a longer
  string is cut to exactly \<open>maxlen\<close> characters: the leading ones, the ellipsis, the
  trailing ones. This is the case for the values the program passes, 80 and 0.5.
\<close>

lemma format_path_shortened:
  assumes "s = (if \<not> fullpath then name p else str_path p)"
    and "maxlen < int (length s)"
    and "e = py_round (fl (fl (of_int maxlen) * fl ef)) - 1"
    and "1 \<le> e" and "e < maxlen"
  shows "format_path p maxlen fullpath ef =
      take (nat (maxlen - e - 1)) s @ [ELLIPSIS] @ drop (length s - nat e) s"
    and "int (length (format_path p maxlen fullpath ef)) = maxlen"
proof -
  have g: "format_path p maxlen fullpath ef =
      slice_to s (maxlen - e - 1) @ [ELLIPSIS] @ slice_from s (- e)"
    using assms(2) unfolding assms(1,3) by (simp add: format_path_def Let_def)
  have t: "slice_to s (maxlen - e - 1) = take (nat (maxlen - e - 1)) s"
    using assms(5) by (simp add: slice_to_def)
  have "nat (int (length s) + - e) = length s - nat e"
    using assms(4) by linarith
  then have d: "slice_from s (- e) = drop (length s - nat e) s"
    using assms(4) by (simp add: slice_from_def)
  show f: "format_path p maxlen fullpath ef =
      take (nat (maxlen - e - 1)) s @ [ELLIPSIS] @ drop (length s - nat e) s"
    by (simp only: g t d)
  have "length (take (nat (maxlen - e - 1)) s) = nat (maxlen - e - 1)"
    using assms(2,4,5) by simp
  moreover have "length (drop (length s - nat e) s) = nat e"
    using assms(2,4,5) by simp
  ultimately show "int (length (format_path p maxlen fullpath ef)) = maxlen"
    unfolding f using assms(4,5) by simp
qed

lemma program_char_end: "py_round (fl (fl (of_int 80) * fl (1 / 2))) - 1 = 39"
  by code_simp

text \<open>Floats are not the rationals: \<open>5 * 0.1\<close> is the float \<open>0.5\<close>, which rounds to 0,
  while \<open>2 * 0.5\<close> is exactly 1.\<close>

lemma round_five_tenths: "py_round (fl (fl (of_int 5) * fl (1 / 10))) = 0"
  by code_simp

lemma round_two_halves: "py_round (fl (fl 2 * fl (1 / 2))) = 1"
  by code_simp

text \<open>
  C8. With \<open>maxlen = 2\<close> and \<open>ending_fraction = 0.5\<close> the number of ending characters is
  \<open>round(1.0) - 1 = 0\<close>, and the slice \<open>path_str[-0:]\<close> is the whole string: the file
  name \<open>abcdef\<close> becomes one leading character, the ellipsis and all six characters
  again, eight characters in all, where two are expected.
\<close>

theorem format_path_zero_ending:
  "format_path (Path [] [lit ''abcdef'']) 2 False (1 / 2) = lit ''a'' @ [ELLIPSIS] @ lit ''abcdef''
    \<and> length (format_path (Path [] [lit ''abcdef'']) 2 False (1 / 2)) = 8"
  by (simp add: format_path_def name_def round_two_halves slice_to_def slice_from_def lit_def)

section \<open>The missing attachment\<close>

text \<open>
  C9 (as amended). When the selected file does not exist, \<open>main\<close> prints the message to
  standard error and shows it with \<open>rofi -e\<close>, the opener is not called, and \<open>main\<close>
  returns: the exit status is 0.
\<close>

theorem missing_file_reported:
  assumes "build_authors (all_authors w) = Inr authors"
    and "titles_loop [] Map.empty (all_titles w) = (titles, keys)"
    and "years_loop Map.empty (all_dates w) = Inr years"
    and "paths_loop (py_repr w) (zotero_base_dir cfg) (zotero_path cfg) keys Map.empty
           (all_paths w) = Inr paths"
    and "select_file cfg w paths (item_list_with_ids titles authors years) = Inr (evs, Some f)"
    and "\<not> file_exists w f"
  shows "main cfg w =
      Inr (evs @
        [Stderr (lit ''Could not find file: '' @ str_path f),
         Subprocess ([lit ''rofi'', lit ''-e'', lit ''Could not find file: '' @ str_path f]
                      @ rofi_args cfg) []])
    \<and> list_all (\<lambda>e. \<not> is_open e)
        (evs @
          [Stderr (lit ''Could not find file: '' @ str_path f),
           Subprocess ([lit ''rofi'', lit ''-e'', lit ''Could not find file: '' @ str_path f]
                        @ rofi_args cfg) []])
    \<and> exit_status (main cfg w) = 0"
proof -
  have m: "main cfg w =
      Inr (evs @
        [Stderr (lit ''Could not find file: '' @ str_path f),
         Subprocess ([lit ''rofi'', lit ''-e'', lit ''Could not find file: '' @ str_path f]
                      @ rofi_args cfg) []])"
    using assms by (simp add: main_def open_or_report_def show_error_def)
  have n: "list_all (\<lambda>e. \<not> is_open e) evs"
    using select_file_no_open [OF assms(5)] .
  show ?thesis
    using n by (simp add: m exit_status_def)
qed

text \<open>
  C9 as stated fails: with the only attachment \<open>/x.pdf\<close> missing, the error is shown and
  nothing is opened, but the exit status is 0.
\<close>

theorem missing_file_exit_status_zero:
  "main demo_config (demo_world\<lparr>file_exists := (\<lambda>f. False)\<rparr>) =
     Inr [Subprocess [lit ''rofi'', lit ''-dmenu'', lit ''-format'', lit ''i'', lit ''-i'',
            lit ''-p'', lit ''paper''] (lit ''Unknown - T''),
          Stderr (lit ''Could not find file: /x.pdf''),
          Subprocess [lit ''rofi'', lit ''-e'', lit ''Could not find file: /x.pdf'', lit ''-i'']
            []]
   \<and> exit_status (main demo_config (demo_world\<lparr>file_exists := (\<lambda>f. False)\<rparr>)) = 0"
  by (simp add: run_defs)

text \<open>
  The same run satisfies every hypothesis of the amended statement.
\<close>

theorem missing_file_reported_witness:
  "build_authors (all_authors (demo_world\<lparr>file_exists := (\<lambda>f. False)\<rparr>)) = Inr Map.empty
   \<and> titles_loop [] Map.empty (all_titles (demo_world\<lparr>file_exists := (\<lambda>f. False)\<rparr>))
       = ([(1, lit ''T'')], [1 \<mapsto> lit ''K''])
   \<and> years_loop Map.empty (all_dates (demo_world\<lparr>file_exists := (\<lambda>f. False)\<rparr>))
       = Inr Map.empty
   \<and> paths_loop (py_repr (demo_world\<lparr>file_exists := (\<lambda>f. False)\<rparr>))
        (zotero_base_dir demo_config) (zotero_path demo_config) [1 \<mapsto> lit ''K''] Map.empty
        (all_paths (demo_world\<lparr>file_exists := (\<lambda>f. False)\<rparr>))
       = Inr [1 \<mapsto> [Path (lit ''/'') [lit ''x.pdf'']]]
   \<and> select_file demo_config (demo_world\<lparr>file_exists := (\<lambda>f. False)\<rparr>)
        [1 \<mapsto> [Path (lit ''/'') [lit ''x.pdf'']]]
        (item_list_with_ids [(1, lit ''T'')] Map.empty Map.empty)
       = Inr ([Subprocess (rofi_command [lit ''-i''] (lit ''paper'')) (lit ''Unknown - T'')],
              Some (Path (lit ''/'') [lit ''x.pdf'']))
   \<and> \<not> file_exists (demo_world\<lparr>file_exists := (\<lambda>f. False)\<rparr>) (Path (lit ''/'') [lit ''x.pdf''])
   \<and> main demo_config (demo_world\<lparr>file_exists := (\<lambda>f. False)\<rparr>) =
       Inr [Subprocess (rofi_command [lit ''-i''] (lit ''paper'')) (lit ''Unknown - T''),
            Stderr (lit ''Could not find file: /x.pdf''),
            Subprocess [lit ''rofi'', lit ''-e'', lit ''Could not find file: /x.pdf'', lit ''-i'']
              []]
   \<and> exit_status (main demo_config (demo_world\<lparr>file_exists := (\<lambda>f. False)\<rparr>)) = 0"
proof -
  let ?w = "demo_world\<lparr>file_exists := (\<lambda>f. False)\<rparr>"
  let ?x = "Path (lit ''/'') [lit ''x.pdf'']"
  let ?e = "Subprocess (rofi_command [lit ''-i''] (lit ''paper'')) (lit ''Unknown - T'')"
  have 1: "build_authors (all_authors ?w) = Inr Map.empty"
    by (simp add: demo_world_def build_authors_def)
  have 2: "titles_loop [] Map.empty (all_titles ?w) = ([(1, lit ''T'')], [1 \<mapsto> lit ''K''])"
    by (simp add: demo_world_def)
  have 3: "years_loop Map.empty (all_dates ?w) = Inr Map.empty"
    by (simp add: demo_world_def)
  have 4: "paths_loop (py_repr ?w) (zotero_base_dir demo_config) (zotero_path demo_config)
      [1 \<mapsto> lit ''K''] Map.empty (all_paths ?w) = Inr [1 \<mapsto> [?x]]"
    by (simp add: run_defs)
  have 5: "select_file demo_config ?w [1 \<mapsto> [?x]]
      (item_list_with_ids [(1, lit ''T'')] Map.empty Map.empty) = Inr ([?e], Some ?x)"
    by (simp add: run_defs)
  have 6: "\<not> file_exists ?w ?x"
    by simp
  have s: "lit ''Could not find file: '' @ str_path ?x = lit ''Could not find file: /x.pdf''"
    by (simp add: str_path_def lit_def)
  have r: "rofi_args demo_config = [lit ''-i'']"
    by (simp add: demo_config_def)
  note th = missing_file_reported [OF 1 2 3 4 5 6, unfolded s r]
  have 7: "main demo_config ?w =
       Inr [?e, Stderr (lit ''Could not find file: /x.pdf''),
            Subprocess [lit ''rofi'', lit ''-e'', lit ''Could not find file: /x.pdf'', lit ''-i'']
              []]"
    using th [THEN conjunct1] by simp
  have 8: "exit_status (main demo_config ?w) = 0"
    by (rule th [THEN conjunct2, THEN conjunct2])
  show ?thesis
    by (intro conjI 1 2 3 4 5 6 7 8)
qed

end
